theory Spec2Isabelle
  imports Main
begin

section \<open>State snapshot: \<open>getState\<close> (server.js, lines 208-240)\<close>

text \<open>
  The hub's membership store \<open>io.sockets.adapter.rooms\<close> is a JavaScript object from
  room names to room records; a room record has an object \<open>sockets\<close> from connection
  identities to flags and a member count \<open>length\<close>. An object is modelled by the list
  of its own entries in the order \<open>Object.keys\<close> enumerates them.
\<close>

record room_info =
  info_sockets :: "(string \<times> bool) list"
  info_length :: nat

record room_entry =
  name :: string
  entry_sockets :: "string list"

record snapshot =
  rooms :: "room_entry list"
  sockets :: "string list"

type_synonym adapter_rooms = "(string \<times> room_info) list"

text \<open>
  Truthiness of \<open>info.sockets[id]\<close>. The hub creates \<open>sockets\<close> as a plain object, so
  a key it does not own is read from \<open>Object.prototype\<close>: the names below are inherited
  and their values (functions, and the prototype itself) are truthy; any other absent key
  reads \<open>undefined\<close>, which is falsy.
\<close>

definition object_prototype :: "string list" where
  "object_prototype =
     [''constructor'', ''__defineGetter__'', ''__defineSetter__'', ''hasOwnProperty'',
      ''__lookupGetter__'', ''__lookupSetter__'', ''isPrototypeOf'', ''propertyIsEnumerable'',
      ''toString'', ''valueOf'', ''__proto__'', ''toLocaleString'']"

definition truthy_member :: "(string \<times> bool) list \<Rightarrow> string \<Rightarrow> bool" where
  "truthy_member obj key =
     (case map_of obj key of
        Some b \<Rightarrow> b
      | None \<Rightarrow> key \<in> set object_prototype)"

text \<open>
  \<open>forEachRoom (fn, initial)\<close>: \<open>Object.keys(rooms).reduce\<close> with the record looked
  up under each key. A key of the object always has a record; the \<open>None\<close> branch is
  never taken for a key of the same object.
\<close>

definition forEachRoom ::
  "adapter_rooms \<Rightarrow> ('a \<Rightarrow> room_info \<Rightarrow> string \<Rightarrow> 'a) \<Rightarrow> 'a \<Rightarrow> 'a" where
  "forEachRoom io_rooms fn initial =
     foldl (\<lambda>data nm. case map_of io_rooms nm of
                          Some info \<Rightarrow> fn data info nm
                        | None \<Rightarrow> data)
       initial (map fst io_rooms)"

text \<open>
  \<open>dict[id] = true\<close> on an object used as a set: the keys in the order they were
  first set. \<open>Object.keys\<close> lists the keys that are array indices (canonical decimal
  numerals below \<open>2^32 - 1\<close>) first, in ascending order, then the others in the order
  they were set.
\<close>

definition decimal :: "string \<Rightarrow> nat" where
  "decimal key = foldl (\<lambda>n c. 10 * n + (of_char c - 48)) 0 key"

definition array_index :: "string \<Rightarrow> bool" where
  "array_index key \<longleftrightarrow>
     key \<noteq> [] \<and> list_all (\<lambda>c. c \<in> set ''0123456789'') key
     \<and> (key = ''0'' \<or> hd key \<noteq> CHR ''0'') \<and> decimal key < 4294967295"

definition object_keys :: "string list \<Rightarrow> string list" where
  "object_keys dict =
     sort_key decimal (filter array_index dict) @ filter (\<lambda>key. \<not> array_index key) dict"

definition dict_set :: "string list \<Rightarrow> string \<Rightarrow> string list" where
  "dict_set dict ident = (if ident \<in> set dict then dict else dict @ [ident])"

definition active_sockets :: "room_info \<Rightarrow> string list" where
  "active_sockets info =
     filter (\<lambda>ident. truthy_member (info_sockets info) ident)
       (map fst (info_sockets info))"

definition collect_room :: "room_entry list \<Rightarrow> room_info \<Rightarrow> string \<Rightarrow> room_entry list" where
  "collect_room acc info nm =
     (if info_length info = 1 \<and> truthy_member (info_sockets info) nm
      then acc
      else acc @ [\<lparr>name = nm, entry_sockets = active_sockets info\<rparr>])"

definition collect_sockets :: "string list \<Rightarrow> room_info \<Rightarrow> string \<Rightarrow> string list" where
  "collect_sockets dict info nm =
     foldl (\<lambda>d ident. if truthy_member (info_sockets info) ident
                        then dict_set d ident else d)
       dict (map fst (info_sockets info))"

definition getState :: "adapter_rooms \<Rightarrow> snapshot" where
  "getState io_rooms =
     \<lparr>rooms = forEachRoom io_rooms collect_room [],
      sockets = object_keys (forEachRoom io_rooms collect_sockets [])\<rparr>"

section \<open>Interception: \<open>monkeyPatch\<close> (server.js, lines 47-53)\<close>

text \<open>
  A JavaScript function is modelled as an operation on the state of the process: it takes
  its arguments and the state, and returns the state it leaves together with either the
  error it throws (\<open>Inl\<close>) or the value it returns (\<open>Inr\<close>). An object is a map from
  property names to operations.
\<close>

datatype error = TypeError | Error string

type_synonym ('a, 's, 'r) operation = "'a \<Rightarrow> 's \<Rightarrow> (error + 'r) \<times> 's"

text \<open>
  The function stored by \<open>monkeyPatch\<close>: \<open>fn.apply(this, args)\<close>, whose value is
  dropped, then \<open>return orig.apply(this, args)\<close>. Nothing catches what \<open>fn\<close> throws.
  \<open>orig\<close> is whatever \<open>object[method]\<close> held; applying \<open>undefined\<close> is a TypeError.
\<close>

definition wrapper ::
  "('a, 's, 'r) operation option \<Rightarrow> ('a, 's, 'u) operation \<Rightarrow> ('a, 's, 'r) operation" where
  "wrapper orig fn args s =
     (case fn args s of
        (Inl e, s') \<Rightarrow> (Inl e, s')
      | (Inr _, s') \<Rightarrow>
          (case orig of
             None \<Rightarrow> (Inl TypeError, s')
           | Some f \<Rightarrow> f args s'))"

definition monkeyPatch ::
  "(string \<rightharpoonup> ('a, 's, 'r) operation) \<Rightarrow> string \<Rightarrow> ('a, 's, 'u) operation
     \<Rightarrow> (string \<rightharpoonup> ('a, 's, 'r) operation)" where
  "monkeyPatch object method fn = object(method \<mapsto> wrapper (object method) fn)"

text \<open>A caller's \<open>object[method](...args)\<close>, and a sequence of such calls by the hub.\<close>

definition call ::
  "(string \<rightharpoonup> ('a, 's, 'r) operation) \<Rightarrow> string \<Rightarrow> ('a, 's, 'r) operation" where
  "call object method args s =
     (case object method of
        None \<Rightarrow> (Inl TypeError, s)
      | Some f \<Rightarrow> f args s)"

fun calls ::
  "(string \<rightharpoonup> ('a, 's, 'r) operation) \<Rightarrow> (string \<times> 'a) list \<Rightarrow> 's
     \<Rightarrow> (error + 'r) list \<times> 's" where
  "calls object [] s = ([], s)"
| "calls object ((method, args) # cs) s =
     (case call object method args s of
        (r, s') \<Rightarrow> (case calls object cs s' of (rs, s'') \<Rightarrow> (r # rs, s'')))"

text \<open>
  The state of the process is the hub's state paired with the monitor's. The hub's own
  operations work on the first component, a capture function on the second.
\<close>

definition on_hub :: "('a, 'h, 'r) operation \<Rightarrow> ('a, 'h \<times> 'm, 'r) operation" where
  "on_hub f args s = (case f args (fst s) of (r, h') \<Rightarrow> (r, (h', snd s)))"

definition on_monitor :: "('a, 'm, 'u) operation \<Rightarrow> ('a, 'h \<times> 'm, 'u) operation" where
  "on_monitor fn args s = (case fn args (snd s) of (r, m') \<Rightarrow> (r, (fst s, m')))"

definition hub_object ::
  "(string \<rightharpoonup> ('a, 'h, 'r) operation) \<Rightarrow> (string \<rightharpoonup> ('a, 'h \<times> 'm, 'r) operation)" where
  "hub_object object method = map_option on_hub (object method)"

section \<open>Roster and dispatcher: \<open>connHandler\<close> (server.js, lines 128-162)\<close>

text \<open>
  A session object (\<open>proto\<close>, made by \<open>protocol.bindSocket\<close>) is known by its identity.
  What \<open>proto.emit(name, data)\<close> puts on the wire is recorded in \<open>sent\<close>, in the order
  of the calls.
\<close>

type_synonym proto = nat

datatype 'd body =
    Flag bool
  | AuthResult bool "string option"
  | State snapshot
  | Failure error
  | Payload 'd

datatype timer = NoTimer | Pending | Cleared | Fired

text \<open>
  One raw connection: the variable \<open>authorized\<close>, the auth timer, whether the
  \<open>once('password')\<close> listener is still attached to the session object, and whether
  \<open>socket.end()\<close> was called.
\<close>

record conn =
  authorized :: bool
  timeout :: timer
  password_listener :: bool
  ended :: bool

record 'd server =
  protos :: "proto list"
  conns :: "proto \<rightharpoonup> conn"
  sent :: "(proto \<times> string \<times> 'd body) list"
  immediates :: "proto list"

record options =
  password :: "string option"
  authTimeout :: nat

text \<open>
  Modelled from the spec: \<open>protocol.js\<close> (\<open>bindSocket\<close> and the session's \<open>emit\<close>)
  is not among the sources. The session's send "emits a named message with a payload";
  whether it can throw is left open, so every caller of it takes that as a parameter:
  \<open>wire p name data\<close> is the error that \<open>p.emit(name, data)\<close> throws, if any. A send
  that returns is recorded in \<open>sent\<close>; one that throws ends the function that called
  it, since nothing in the sources catches it.
\<close>

type_synonym 'd wire = "proto \<Rightarrow> string \<Rightarrow> 'd body \<Rightarrow> error option"

definition proto_emit :: "'d server \<Rightarrow> proto \<Rightarrow> string \<Rightarrow> 'd body \<Rightarrow> 'd server" where
  "proto_emit s p nm b = s\<lparr>sent := sent s @ [(p, nm, b)]\<rparr>"

definition try_emit ::
  "'d wire \<Rightarrow> 'd server \<Rightarrow> proto \<Rightarrow> string \<Rightarrow> 'd body \<Rightarrow> (error + unit) \<times> 'd server" where
  "try_emit wire s p nm b =
     (case wire p nm b of
        Some e \<Rightarrow> (Inl e, s)
      | None \<Rightarrow> (Inr (), proto_emit s p nm b))"

text \<open>
  \<open>addProto\<close>: the roster grows at its end, and the delivery of \<open>init\<close> is queued
  with \<open>setImmediate\<close>.
\<close>

definition addProto :: "'d server \<Rightarrow> proto \<Rightarrow> 'd server" where
  "addProto s p = s\<lparr>protos := protos s @ [p], immediates := immediates s @ [p]\<rparr>"

text \<open>
  The queued callback: \<open>emitter.getState()\<close> on the hub as it is then (\<open>None\<close>: a
  hub whose rooms cannot be read, so that the promise is rejected with a TypeError), then
  \<open>proto.emit('init', data)\<close>; a rejection or a throwing send is caught and answered
  with \<open>proto.emit('error', err.message)\<close>, which nothing catches. (The event
  \<open>client\<close> published before \<open>init\<close> has no listener in the sources.)
\<close>

definition run_immediate :: "'d wire \<Rightarrow> 'd server \<Rightarrow> adapter_rooms option \<Rightarrow> 'd server" where
  "run_immediate wire s io_rooms =
     (case immediates s of
        [] \<Rightarrow> s
      | p # ps \<Rightarrow>
          (case (case io_rooms of
                   None \<Rightarrow> (Inl TypeError, s\<lparr>immediates := ps\<rparr>)
                 | Some rs \<Rightarrow> try_emit wire (s\<lparr>immediates := ps\<rparr>) p ''init''
                               (State (getState rs))) of
             (Inr _, s') \<Rightarrow> s'
           | (Inl e, s') \<Rightarrow> snd (try_emit wire s' p ''error'' (Failure e))))"

text \<open>
  \<open>removeProto\<close>: \<open>protos.filter(p => p !== proto)\<close> and
  \<open>proto.removeAllListeners()\<close>.
\<close>

definition removeAllListeners :: "'d server \<Rightarrow> proto \<Rightarrow> 'd server" where
  "removeAllListeners s p =
     (case conns s p of
        None \<Rightarrow> s
      | Some c \<Rightarrow> s\<lparr>conns := (conns s)(p \<mapsto> c\<lparr>password_listener := False\<rparr>)\<rparr>)"

definition removeProto :: "'d server \<Rightarrow> proto \<Rightarrow> 'd server" where
  "removeProto s proto =
     removeAllListeners (s\<lparr>protos := filter (\<lambda>p. p \<noteq> proto) (protos s)\<rparr>) proto"

text \<open>
  \<open>dispatch(name)(data)\<close>: \<open>protos.forEach(proto => proto.emit(name, data))\<close>. A send
  that throws ends the \<open>forEach\<close> and the error leaves \<open>dispatch\<close>.
\<close>

fun forEach_emit ::
  "'d wire \<Rightarrow> string \<Rightarrow> 'd \<Rightarrow> proto list \<Rightarrow> 'd server \<Rightarrow> (error + unit) \<times> 'd server" where
  "forEach_emit wire nm data [] s = (Inr (), s)"
| "forEach_emit wire nm data (p # ps) s =
     (case wire p nm (Payload data) of
        Some e \<Rightarrow> (Inl e, s)
      | None \<Rightarrow> forEach_emit wire nm data ps (proto_emit s p nm (Payload data)))"

definition dispatch :: "'d wire \<Rightarrow> string \<Rightarrow> 'd \<Rightarrow> 'd server \<Rightarrow> (error + unit) \<times> 'd server" where
  "dispatch wire nm data s = forEach_emit wire nm data (protos s) s"

text \<open>
  The event kinds the dispatcher subscribes to (lines 153-162), and \<open>emitter.emit\<close>:
  the listeners of a kind run within the call; an event of another name has none, and
  Node's \<open>emit\<close> throws for the name \<open>error\<close> without a listener.
\<close>

definition kinds :: "string list" where
  "kinds = [''string'', ''broadcast'', ''join'', ''leave'', ''leaveAll'',
            ''connect'', ''disconnect'', ''emit'', ''recv'']"

definition emitter_emit ::
  "'d wire \<Rightarrow> string \<Rightarrow> 'd \<Rightarrow> 'd server \<Rightarrow> (error + unit) \<times> 'd server" where
  "emitter_emit wire nm data s =
     (if nm \<in> set kinds then dispatch wire nm data s
      else if nm = ''error'' then (Inl (Error ''ERR_UNHANDLED_ERROR''), s)
      else (Inr (), s))"

fun publish_all ::
  "'d wire \<Rightarrow> (string \<times> 'd) list \<Rightarrow> 'd server \<Rightarrow> (error + unit) list \<times> 'd server" where
  "publish_all wire [] s = ([], s)"
| "publish_all wire ((nm, data) # evs) s =
     (case emitter_emit wire nm data s of
        (r, s') \<Rightarrow> (case publish_all wire evs s' of (rs, s'') \<Rightarrow> (r # rs, s'')))"

text \<open>The events a session was sent by the dispatcher, and the listeners it still has.\<close>

fun delivered :: "(proto \<times> string \<times> 'd body) list \<Rightarrow> proto \<Rightarrow> (string \<times> 'd) list" where
  "delivered [] p = []"
| "delivered ((q, nm, Payload d) # ms) p =
     (if q = p then (nm, d) # delivered ms p else delivered ms p)"
| "delivered (m # ms) p = delivered ms p"

definition listeners :: "'d server \<Rightarrow> proto \<Rightarrow> string list" where
  "listeners s p =
     (case conns s p of
        None \<Rightarrow> []
      | Some c \<Rightarrow> if password_listener c then [''password''] else [])"

section \<open>Captured membership operations (server.js, lines 70-78)\<close>

datatype event = Join string string | Leave string string

text \<open>
  The capture functions installed on \<open>adapter.add\<close> and \<open>adapter.del\<close>, for a call
  \<open>(id, room)\<close>; the first publishes nothing for a connection's own room.
\<close>

definition capture_add :: "event wire \<Rightarrow> (string \<times> string, event server, unit) operation" where
  "capture_add wire args s =
     (case args of (ident, room) \<Rightarrow>
        if ident \<noteq> room then emitter_emit wire ''join'' (Join ident room) s
        else (Inr (), s))"

definition capture_del :: "event wire \<Rightarrow> (string \<times> string, event server, unit) operation" where
  "capture_del wire args s =
     (case args of (ident, room) \<Rightarrow> emitter_emit wire ''leave'' (Leave ident room) s)"

section \<open>Authentication handshake: the connection callback (server.js, lines 164-204)\<close>

text \<open>\<open>!password\<close> is true for \<open>null\<close> and for the empty string.\<close>

definition configured :: "options \<Rightarrow> bool" where
  "configured opts = (case password opts of None \<Rightarrow> False | Some pw \<Rightarrow> pw \<noteq> [])"

definition update_conn :: "'d server \<Rightarrow> proto \<Rightarrow> conn \<Rightarrow> 'd server" where
  "update_conn s p c = s\<lparr>conns := (conns s)(p \<mapsto> c)\<rparr>"

definition socket_end :: "'d server \<Rightarrow> proto \<Rightarrow> 'd server" where
  "socket_end s p =
     (case conns s p of
        None \<Rightarrow> s
      | Some c \<Rightarrow> update_conn s p (c\<lparr>ended := True\<rparr>))"

text \<open>\<open>init\<close>: \<open>authorized = true; addProto(proto)\<close>.\<close>

definition init :: "'d server \<Rightarrow> proto \<Rightarrow> 'd server" where
  "init s p =
     addProto (case conns s p of
                 None \<Rightarrow> s
               | Some c \<Rightarrow> update_conn s p (c\<lparr>authorized := True\<rparr>)) p"

text \<open>\<open>clearTimeout\<close> cancels a pending timer and does nothing to one that has fired.\<close>

definition clearTimeout :: "timer \<Rightarrow> timer" where
  "clearTimeout t = (if t = Pending then Cleared else t)"

text \<open>
  The callback for a new raw connection (lines 164-204). The session object \<open>p\<close> is
  new. Its \<open>close\<close> listener is set before anything is sent; the \<open>reqAuth\<close> send comes
  before \<open>setTimeout\<close> and \<open>proto.once('password', ...)\<close>, so if it throws there is
  neither timer nor listener.
\<close>

definition connection ::
  "options \<Rightarrow> 'd wire \<Rightarrow> 'd server \<Rightarrow> proto \<Rightarrow> (error + unit) \<times> 'd server" where
  "connection opts wire s p =
     (let s0 = update_conn s p
                 \<lparr>authorized = False, timeout = NoTimer, password_listener = False,
                  ended = False\<rparr>
      in if \<not> configured opts
         then (case try_emit wire s0 p ''reqAuth'' (Flag False) of
                 (Inl e, s1) \<Rightarrow> (Inl e, s1)
               | (Inr _, s1) \<Rightarrow>
                   (Inr (), update_conn s1 p
                      \<lparr>authorized = False, timeout = NoTimer, password_listener = True,
                       ended = False\<rparr>))
         else (case try_emit wire s0 p ''reqAuth'' (Flag True) of
                 (Inl e, s1) \<Rightarrow> (Inl e, s1)
               | (Inr _, s1) \<Rightarrow>
                   (Inr (), update_conn s1 p
                      \<lparr>authorized = False, timeout = Pending, password_listener = True,
                       ended = False\<rparr>)))"

text \<open>
  The \<open>once('password')\<close> listener: it is detached when it runs. Without a configured
  password it is \<open>() => init()\<close>; with one it clears the timer, compares with
  \<open>===\<close>, sends the answer and only then admits or ends the socket.
\<close>

definition on_password ::
  "options \<Rightarrow> 'd wire \<Rightarrow> 'd server \<Rightarrow> proto \<Rightarrow> string \<Rightarrow> (error + unit) \<times> 'd server" where
  "on_password opts wire s p pwd =
     (case conns s p of
        None \<Rightarrow> (Inr (), s)
      | Some c \<Rightarrow>
          if \<not> password_listener c then (Inr (), s)
          else if \<not> configured opts
          then (Inr (), init (update_conn s p (c\<lparr>password_listener := False\<rparr>)) p)
          else
            (let s1 = update_conn s p
                        (c\<lparr>password_listener := False, timeout := clearTimeout (timeout c)\<rparr>)
             in if Some pwd = password opts
                then (case try_emit wire s1 p ''auth'' (AuthResult True None) of
                        (Inl e, s2) \<Rightarrow> (Inl e, s2)
                      | (Inr _, s2) \<Rightarrow> (Inr (), init s2 p))
                else (case try_emit wire s1 p ''auth''
                             (AuthResult False (Some ''INVALID_PASSWORD'')) of
                        (Inl e, s2) \<Rightarrow> (Inl e, s2)
                      | (Inr _, s2) \<Rightarrow> (Inr (), socket_end s2 p))))"

text \<open>
  The timer's callback, run \<open>elapsed\<close> milliseconds after \<open>setTimeout\<close>: the runtime
  runs it only if the timer is still pending, and not before the delay \<open>authTimeout\<close>.
\<close>

definition on_timeout ::
  "options \<Rightarrow> 'd wire \<Rightarrow> 'd server \<Rightarrow> proto \<Rightarrow> nat \<Rightarrow> (error + unit) \<times> 'd server" where
  "on_timeout opts wire s p elapsed =
     (case conns s p of
        None \<Rightarrow> (Inr (), s)
      | Some c \<Rightarrow>
          if timeout c \<noteq> Pending \<or> elapsed < authTimeout opts then (Inr (), s)
          else (case try_emit wire (update_conn s p (c\<lparr>timeout := Fired\<rparr>)) p ''auth''
                       (AuthResult False (Some ''TIMEOUT'')) of
                  (Inl e, s1) \<Rightarrow> (Inl e, s1)
                | (Inr _, s1) \<Rightarrow> (Inr (), socket_end s1 p)))"

text \<open>
  What the event loop hands to the program: a new connection, a \<open>password\<close> message
  on a session, the auth timer of a connection (with the time since it was set), the
  \<open>close\<close> of a socket, a queued \<open>setImmediate\<close> callback, and a published event.
  An error that leaves a callback goes to the event loop; the program goes on from the
  state the callback left.
\<close>

datatype 'd input =
    Connection proto
  | Password proto string
  | TimerFired proto nat
  | Close proto
  | Immediate "adapter_rooms option"
  | Publish string 'd

fun step :: "options \<Rightarrow> 'd wire \<Rightarrow> 'd server \<Rightarrow> 'd input \<Rightarrow> 'd server" where
  "step opts wire s (Connection p) = snd (connection opts wire s p)"
| "step opts wire s (Password p pwd) = snd (on_password opts wire s p pwd)"
| "step opts wire s (TimerFired p elapsed) = snd (on_timeout opts wire s p elapsed)"
| "step opts wire s (Close p) = removeProto s p"
| "step opts wire s (Immediate io_rooms) = run_immediate wire s io_rooms"
| "step opts wire s (Publish nm data) = snd (emitter_emit wire nm data s)"

definition run :: "options \<Rightarrow> 'd wire \<Rightarrow> 'd server \<Rightarrow> 'd input list \<Rightarrow> 'd server" where
  "run opts wire s ins = foldl (step opts wire) s ins"

definition start :: "'d server" where
  "start = \<lparr>protos = [], conns = Map.empty, sent = [], immediates = []\<rparr>"

section \<open>Examples\<close>

text \<open>A room with one member whose name is a property of \<open>Object.prototype\<close>.\<close>

definition inherited_name_room :: adapter_rooms where
  "inherited_name_room = [(''toString'', \<lparr>info_sockets = [(''a'', True)], info_length = 1\<rparr>)]"

text \<open>A hub state used in the examples: a personal room and a shared room.\<close>

definition example_rooms :: adapter_rooms where
  "example_rooms =
     [(''a'', \<lparr>info_sockets = [(''a'', True)], info_length = 1\<rparr>),
      (''r1'', \<lparr>info_sockets = [(''a'', True), (''b'', True), (''c'', False)], info_length = 3\<rparr>)]"

text \<open>
  A small membership store in the shape of the hub's adapter: \<open>add\<close> and \<open>del\<close>
  take \<open>(id, room)\<close>, change the list of memberships and return its new size.
\<close>

definition example_add :: "(string \<times> string, (string \<times> string) list, nat) operation" where
  "example_add args h = (Inr (Suc (length h)), h @ [args])"

definition example_del :: "(string \<times> string, (string \<times> string) list, nat) operation" where
  "example_del args h = (Inr (length (removeAll args h)), removeAll args h)"

definition example_hub ::
  "string \<rightharpoonup> (string \<times> string, (string \<times> string) list, nat) operation" where
  "example_hub = [''add'' \<mapsto> example_add, ''del'' \<mapsto> example_del]"

text \<open>A capture function that throws, and sessions whose send never or always throws.\<close>

definition failing_capture :: "('a, 's, unit) operation" where
  "failing_capture args s = (Inl (Error ''capture failed''), s)"

definition wire_ok :: "'d wire" where
  "wire_ok p nm b = None"

definition wire_broken :: "proto \<Rightarrow> 'd wire" where
  "wire_broken q p nm b = (if p = q then Some (Error ''write failed'') else None)"

definition roster :: "proto list \<Rightarrow> 'd server" where
  "roster ps = \<lparr>protos = ps, conns = Map.empty, sent = [], immediates = []\<rparr>"

definition with_password :: options where
  "with_password = \<lparr>password = Some ''secret'', authTimeout = 1500\<rparr>"

definition without_password :: options where
  "without_password = \<lparr>password = None, authTimeout = 1500\<rparr>"

definition empty_password :: options where
  "empty_password = \<lparr>password = Some [], authTimeout = 1500\<rparr>"

text \<open>Two sessions admitted with the password, in this order.\<close>

definition two_admitted :: "event server" where
  "two_admitted =
     run with_password wire_ok start
       [Connection 1, Password 1 ''secret'', Connection 2, Password 2 ''secret'']"

section \<open>Properties of the snapshot\<close>

lemma forEachRoom_entries_aux:
  assumes "distinct (map fst rs)" and "set ys \<subseteq> set rs"
  shows "foldl (\<lambda>data nm. case map_of rs nm of Some info \<Rightarrow> fn data info nm | None \<Rightarrow> data)
           initial (map fst ys)
         = foldl (\<lambda>data (nm, info). fn data info nm) initial ys"
  using assms(2)
proof (induction ys arbitrary: initial)
  case Nil
  then show ?case by simp
next
  case (Cons y ys)
  obtain nm info where y: "y = (nm, info)" by (cases y)
  with Cons.prems have "(nm, info) \<in> set rs" by simp
  with assms(1) have "map_of rs nm = Some info" by simp
  with Cons y show ?case by simp
qed

lemma forEachRoom_entries:
  "distinct (map fst rs) \<Longrightarrow>
   forEachRoom rs fn initial = foldl (\<lambda>data (nm, info). fn data info nm) initial rs"
  unfolding forEachRoom_def by (rule forEachRoom_entries_aux) simp_all

lemma foldl_collect_room:
  "foldl (\<lambda>data (nm, info). collect_room data info nm) acc rs =
   acc @ map (\<lambda>(nm, info). \<lparr>name = nm, entry_sockets = active_sockets info\<rparr>)
           (filter (\<lambda>(nm, info). \<not> (info_length info = 1 \<and>
                       truthy_member (info_sockets info) nm)) rs)"
  by (induction rs arbitrary: acc) (auto simp: collect_room_def)

lemma personal_room_iff:
  assumes "info_length info = length (info_sockets info)" and "nm \<notin> set object_prototype"
  shows "(info_length info = 1 \<and> truthy_member (info_sockets info) nm)
         \<longleftrightarrow> info_sockets info = [(nm, True)]"
proof (cases "info_sockets info")
  case Nil
  with assms show ?thesis by simp
next
  case (Cons x xs)
  obtain k v where x: "x = (k, v)" by (cases x)
  show ?thesis
  proof (cases xs)
    case Nil
    with Cons x assms show ?thesis by (auto simp: truthy_member_def)
  next
    case (Cons y ys)
    with \<open>info_sockets info = x # xs\<close> assms show ?thesis by simp
  qed
qed

lemma active_flag_lookup:
  assumes "distinct (map fst xs)" and "x \<in> set xs"
  shows "truthy_member xs (fst x) = snd x"
proof -
  from assms have "map_of xs (fst x) = Some (snd x)" by simp
  then show ?thesis by (simp add: truthy_member_def)
qed

lemma active_sockets_distinct:
  assumes "distinct (map fst (info_sockets info))"
  shows "active_sockets info = map fst (filter snd (info_sockets info))"
proof -
  have "filter ((\<lambda>ident. truthy_member (info_sockets info) ident) \<circ> fst) (info_sockets info)
        = filter snd (info_sockets info)"
    by (rule filter_cong) (simp_all add: active_flag_lookup [OF assms])
  then show ?thesis by (simp add: active_sockets_def filter_map)
qed












text \<open>
  What holds of the \<open>rooms\<close> list. On a hub state (room names and member identities
  are object keys, hence distinct; the hub keeps \<open>length\<close> equal to the number of
  members of the room) none of whose rooms is named like a property of
  \<open>Object.prototype\<close>, the list holds, in the hub's order, every room except those
  whose membership is exactly the one active identity equal to the room's own name, each
  with the list of its active members.
\<close>

lemma getState_rooms_own_names:
  assumes "distinct (map fst io_rooms)"
    and "\<forall>(nm, info)\<in>set io_rooms. distinct (map fst (info_sockets info))"
    and "\<forall>(nm, info)\<in>set io_rooms. info_length info = length (info_sockets info)"
    and "\<forall>(nm, info)\<in>set io_rooms. nm \<notin> set object_prototype"
  shows "rooms (getState io_rooms) =
           map (\<lambda>(nm, info). \<lparr>name = nm, entry_sockets = map fst (filter snd (info_sockets info))\<rparr>)
             (filter (\<lambda>(nm, info). info_sockets info \<noteq> [(nm, True)]) io_rooms)"
proof -
  have keep: "filter (\<lambda>(nm, info). \<not> (info_length info = 1 \<and>
                  truthy_member (info_sockets info) nm)) io_rooms
              = filter (\<lambda>(nm, info). info_sockets info \<noteq> [(nm, True)]) io_rooms"
  proof (rule filter_cong)
    fix r assume "r \<in> set io_rooms"
    with assms(3,4) have "info_length (snd r) = length (info_sockets (snd r))"
      and "fst r \<notin> set object_prototype"
      by (cases r; auto)+
    from personal_room_iff [OF this]
    show "(case r of (nm, info) \<Rightarrow> \<not> (info_length info = 1 \<and>
                  truthy_member (info_sockets info) nm))
          = (case r of (nm, info) \<Rightarrow> info_sockets info \<noteq> [(nm, True)])"
      by (cases r) auto
  qed simp
  have entry: "map (\<lambda>(nm, info). \<lparr>name = nm, entry_sockets = active_sockets info\<rparr>) rs
               = map (\<lambda>(nm, info). \<lparr>name = nm, entry_sockets = map fst (filter snd (info_sockets info))\<rparr>) rs"
    if "set rs \<subseteq> set io_rooms" for rs
  proof (rule map_cong)
    fix r assume "r \<in> set rs"
    with that assms(2) have "distinct (map fst (info_sockets (snd r)))"
      by (cases r) auto
    then show "(case r of (nm, info) \<Rightarrow> \<lparr>name = nm, entry_sockets = active_sockets info\<rparr>)
          = (case r of (nm, info) \<Rightarrow>
               \<lparr>name = nm, entry_sockets = map fst (filter snd (info_sockets info))\<rparr>)"
      by (cases r) (simp add: active_sockets_distinct)
  qed simp
  have "rooms (getState io_rooms)
        = foldl (\<lambda>data (nm, info). collect_room data info nm) [] io_rooms"
    by (simp add: getState_def forEachRoom_entries [OF assms(1)])
  also have "\<dots> = map (\<lambda>(nm, info). \<lparr>name = nm, entry_sockets = active_sockets info\<rparr>)
           (filter (\<lambda>(nm, info). info_sockets info \<noteq> [(nm, True)]) io_rooms)"
    unfolding foldl_collect_room keep by simp
  also have "\<dots> = map (\<lambda>(nm, info).
             \<lparr>name = nm, entry_sockets = map fst (filter snd (info_sockets info))\<rparr>)
           (filter (\<lambda>(nm, info). info_sockets info \<noteq> [(nm, True)]) io_rooms)"
    by (rule entry) simp
  finally show ?thesis .
qed

lemma getState_rooms_example:
  "rooms (getState example_rooms) = [\<lparr>name = ''r1'', entry_sockets = [''a'', ''b'']\<rparr>]"
  using getState_rooms_own_names [of example_rooms]
  by (simp add: example_rooms_def object_prototype_def)

text \<open>
  C5 fails on the code. The test for a personal room reads \<open>info.sockets[name]\<close>
  without asking whether the key is the object's own: for a room with one member whose
  name is a property of \<open>Object.prototype\<close> the inherited value is truthy, and the room
  is skipped although its member is not called like the room.
\<close>

theorem getState_skips_inherited_name:
  "rooms (getState inherited_name_room) = []
   \<and> rooms (getState [(''lobby'', \<lparr>info_sockets = [(''a'', True)], info_length = 1\<rparr>)])
       = [\<lparr>name = ''lobby'', entry_sockets = [''a'']\<rparr>]"
  by (simp add: getState_def forEachRoom_def collect_room_def active_sockets_def
        truthy_member_def object_prototype_def inherited_name_room_def)




section \<open>Properties of the interception\<close>

lemma call_monkeyPatch:
  "call (monkeyPatch object method fn) method args s = wrapper (object method) fn args s"
  by (simp add: call_def monkeyPatch_def)

lemma call_monkeyPatch_other:
  "k \<noteq> method \<Longrightarrow> call (monkeyPatch object method fn) k = call object k"
  by (rule ext, rule ext) (simp add: call_def monkeyPatch_def)

lemma wrapper_throws:
  "fn args s = (Inl e, s') \<Longrightarrow> wrapper orig fn args s = (Inl e, s')"
  by (simp add: wrapper_def)

lemma wrapper_returns:
  "fn args s = (Inr u, s') \<Longrightarrow>
   wrapper (object method) fn args s = call object method args s'"
  by (simp add: wrapper_def call_def)

lemma call_hub_object:
  "call (hub_object hub) k args (h, m) =
     (case call hub k args h of (r, h') \<Rightarrow> (r, (h', m)))"
  by (simp add: call_def hub_object_def on_hub_def split: option.splits)

lemma call_patched_hub:
  assumes "\<forall>args m. \<exists>u m'. capture args m = (Inr u, m')"
  shows "\<exists>m'. call (monkeyPatch (hub_object hub) method (on_monitor capture)) k args (h, m)
              = (fst (call hub k args h), (snd (call hub k args h), m'))"
proof (cases "k = method")
  case True
  from assms obtain u m' where c: "capture args m = (Inr u, m')" by blast
  then have "on_monitor capture args (h, m) = (Inr u, (h, m'))"
    by (simp add: on_monitor_def)
  then have "call (monkeyPatch (hub_object hub) method (on_monitor capture)) method args (h, m)
             = call (hub_object hub) method args (h, m')"
    unfolding call_monkeyPatch by (rule wrapper_returns)
  with True show ?thesis
    by (auto simp: call_hub_object split: prod.splits)
next
  case False
  then show ?thesis
    by (auto simp: call_monkeyPatch_other call_hub_object split: prod.splits)
qed

lemma calls_patched_hub:
  assumes "\<forall>args m. \<exists>u m'. capture args m = (Inr u, m')"
  shows "(case calls (monkeyPatch (hub_object hub) method (on_monitor capture)) cs (h, m) of
            (rs, s) \<Rightarrow> (rs, fst s)) = calls hub cs h"
proof (induction cs arbitrary: h m)
  case Nil
  show ?case by simp
next
  case (Cons c cs)
  obtain k args where c: "c = (k, args)" by (cases c)
  obtain r h' where hub: "call hub k args h = (r, h')" by (cases "call hub k args h")
  from call_patched_hub [OF assms, of hub "method" k args h m] hub
  obtain m' where patched:
    "call (monkeyPatch (hub_object hub) method (on_monitor capture)) k args (h, m)
       = (r, (h', m'))" by auto
  obtain rs s2 where rest:
    "calls (monkeyPatch (hub_object hub) method (on_monitor capture)) cs (h', m') = (rs, s2)"
    by (cases "calls (monkeyPatch (hub_object hub) method (on_monitor capture)) cs (h', m')")
  with Cons.IH [of h' m'] have "calls hub cs h' = (rs, fst s2)" by simp
  with hub patched rest show ?case by (simp add: c)
qed

text \<open>
  C1, as amended. If the capture function throws, its error is the outcome of the call of
  the wrapped operation: it reaches the hub's caller, and the original operation is not
  run (the state is the one the capture function left).
\<close>

theorem monkeyPatch_capture_throws:
  assumes "fn args s = (Inl e, s')"
  shows "call (monkeyPatch object method fn) method args s = (Inl e, s')"
  unfolding call_monkeyPatch using assms by (rule wrapper_throws)

theorem monkeyPatch_capture_throws_witness:
  "call (monkeyPatch example_hub ''add'' failing_capture) ''add'' (''a'', ''r1'') [(''b'', ''r1'')]
     = (Inl (Error ''capture failed''), [(''b'', ''r1'')])"
  by (rule monkeyPatch_capture_throws) (simp add: failing_capture_def)

text \<open>
  C1 as stated fails: with a capture function that throws, the caller of \<open>add\<close> gets the
  error and the membership is not added, where the original operation returns 1 and adds
  it.
\<close>

theorem monkeyPatch_swallow_counterexample:
  "call (monkeyPatch example_hub ''add'' failing_capture) ''add'' (''a'', ''r1'') []
     = (Inl (Error ''capture failed''), [])
   \<and> call example_hub ''add'' (''a'', ''r1'') [] = (Inr 1, [(''a'', ''r1'')])"
  by (simp add: call_def monkeyPatch_def wrapper_def failing_capture_def example_hub_def
        example_add_def)

section \<open>Properties of the dispatcher\<close>

lemma forEach_emit_all:
  "\<forall>p\<in>set ps. wire p nm (Payload d) = None \<Longrightarrow>
   forEach_emit wire nm d ps s
     = (Inr (), s\<lparr>sent := sent s @ map (\<lambda>p. (p, nm, Payload d)) ps\<rparr>)"
  by (induction ps arbitrary: s) (simp_all add: proto_emit_def)

lemma forEach_emit_stops:
  assumes "\<forall>p\<in>set before. wire p nm (Payload d) = None"
    and "wire q nm (Payload d) = Some e"
  shows "forEach_emit wire nm d (before @ q # after) s
           = (Inl e, s\<lparr>sent := sent s @ map (\<lambda>p. (p, nm, Payload d)) before\<rparr>)"
  using assms by (induction before arbitrary: s) (simp_all add: proto_emit_def)

lemma emitter_emit_all:
  assumes "\<forall>p\<in>set (protos s). wire p nm (Payload d) = None" and "nm \<in> set kinds"
  shows "emitter_emit wire nm d s
           = (Inr (), s\<lparr>sent := sent s @ map (\<lambda>p. (p, nm, Payload d)) (protos s)\<rparr>)"
  using assms by (simp add: emitter_emit_def dispatch_def forEach_emit_all)

lemma publish_all_sent:
  assumes "\<forall>p\<in>set (protos s). \<forall>nm d. wire p nm (Payload d) = None"
    and "\<forall>(nm, d)\<in>set evs. nm \<in> set kinds"
  shows "publish_all wire evs s
           = (map (\<lambda>ev. Inr ()) evs,
              s\<lparr>sent := sent s @
                   concat (map (\<lambda>(nm, d). map (\<lambda>p. (p, nm, Payload d)) (protos s)) evs)\<rparr>)"
  using assms
proof (induction evs arbitrary: s)
  case Nil
  show ?case by simp
next
  case (Cons ev evs)
  obtain nm d where ev: "ev = (nm, d)" by (cases ev)
  let ?s' = "s\<lparr>sent := sent s @ map (\<lambda>p. (p, nm, Payload d)) (protos s)\<rparr>"
  from Cons.prems ev have one: "emitter_emit wire nm d s = (Inr (), ?s')"
    by (intro emitter_emit_all) auto
  from Cons.prems have "publish_all wire evs ?s'
           = (map (\<lambda>ev. Inr ()) evs,
              ?s'\<lparr>sent := sent ?s' @
                   concat (map (\<lambda>(nm, d). map (\<lambda>p. (p, nm, Payload d)) (protos ?s')) evs)\<rparr>)"
    by (intro Cons.IH) auto
  with one show ?case by (simp add: ev)
qed

lemma wire_ok_returns:
  "nm \<in> set kinds \<Longrightarrow> \<exists>m'. emitter_emit wire_ok nm d m = (Inr (), m')"
  by (simp add: emitter_emit_def dispatch_def forEach_emit_all wire_ok_def)

lemma capture_add_wire_ok:
  "\<forall>args m. \<exists>u m'. capture_add wire_ok args m = (Inr u, m')"
proof -
  have "''join'' \<in> set kinds" by (simp add: kinds_def)
  from wire_ok_returns [OF this] show ?thesis
    by (auto simp: capture_add_def split: prod.splits)
qed

text \<open>
  C2, as amended. When the capture function returns, the call of the wrapped operation is
  the capture function on the arguments followed by the original operation on the same
  arguments, and its outcome is the original's. When the capture function always returns
  (and works on the monitor's state only), any sequence of calls by the hub has the same
  outcomes and leaves the same hub state with the operation wrapped as without.
\<close>

theorem monkeyPatch_capture_then_original:
  "(fn args s = (Inr u, s') \<longrightarrow>
      call (monkeyPatch object method fn) method args s = call object method args s')
   \<and> ((\<forall>args m. \<exists>u m'. capture args m = (Inr u, m')) \<longrightarrow>
      (case calls (monkeyPatch (hub_object hub) method (on_monitor capture)) cs (h, m) of
         (rs, s2) \<Rightarrow> (rs, fst s2)) = calls hub cs h)"
  by (simp add: call_monkeyPatch wrapper_returns calls_patched_hub)

theorem monkeyPatch_capture_then_original_witness:
  "call (monkeyPatch (hub_object example_hub) ''add'' (on_monitor (capture_add wire_ok)))
       ''add'' (''a'', ''r1'') ([], roster [1, 2])
     = call (hub_object example_hub) ''add'' (''a'', ''r1'')
         ([], (roster [1, 2])\<lparr>sent := [(1, ''join'', Payload (Join ''a'' ''r1'')),
                                       (2, ''join'', Payload (Join ''a'' ''r1''))]\<rparr>)
   \<and> (case calls (monkeyPatch (hub_object example_hub) ''add'' (on_monitor (capture_add wire_ok)))
              [(''add'', (''a'', ''a'')), (''add'', (''a'', ''r1'')), (''del'', (''a'', ''a''))]
              ([], roster [1, 2]) of
         (rs, s2) \<Rightarrow> (rs, fst s2))
       = calls example_hub
           [(''add'', (''a'', ''a'')), (''add'', (''a'', ''r1'')), (''del'', (''a'', ''a''))] []"
proof -
  have ret: "on_monitor (capture_add wire_ok) (''a'', ''r1'') ([], roster [1, 2])
        = (Inr (), ([], (roster [1, 2])\<lparr>sent := [(1, ''join'', Payload (Join ''a'' ''r1'')),
                                       (2, ''join'', Payload (Join ''a'' ''r1''))]\<rparr>))"
    by (simp add: on_monitor_def capture_add_def emitter_emit_def kinds_def dispatch_def
          roster_def wire_ok_def proto_emit_def)
  from monkeyPatch_capture_then_original
         [of "on_monitor (capture_add wire_ok)" "(''a'', ''r1'')" "([], roster [1, 2])" "()" _
             "hub_object example_hub" "''add''" "capture_add wire_ok" example_hub _ "[]"
             "roster [1, 2]"]
       ret capture_add_wire_ok
  show ?thesis by blast
qed

text \<open>
  C2 as stated fails: with a monitor session whose send throws, the second \<open>add\<close> of
  the sequence throws and adds nothing, where the hub alone returns 2 and adds the
  membership.
\<close>

theorem monkeyPatch_behaviour_counterexample:
  "(case calls (monkeyPatch (hub_object example_hub) ''add''
                  (on_monitor (capture_add (wire_broken 1))))
            [(''add'', (''a'', ''a'')), (''add'', (''a'', ''r1''))] ([], roster [1]) of
      (rs, s2) \<Rightarrow> (rs, fst s2))
     = ([Inr 1, Inl (Error ''write failed'')], [(''a'', ''a'')])
   \<and> calls example_hub [(''add'', (''a'', ''a'')), (''add'', (''a'', ''r1''))] []
     = ([Inr 1, Inr 2], [(''a'', ''a''), (''a'', ''r1'')])"
  by (simp add: call_def monkeyPatch_def wrapper_def hub_object_def on_hub_def on_monitor_def
        capture_add_def emitter_emit_def kinds_def dispatch_def roster_def wire_broken_def
        example_hub_def example_add_def)

text \<open>
  C6, as amended. While every admitted session's send returns, each published event of
  a subscribed kind is sent to every session of the roster, under the kind as message
  name and with the payload as body, in roster order, and all of them are sent one event
  before any is sent the next. The roster is in admission order: admission appends.
\<close>

theorem dispatch_fan_out:
  assumes "\<forall>p\<in>set (protos s). \<forall>nm d. wire p nm (Payload d) = None"
    and "\<forall>(nm, d)\<in>set evs. nm \<in> set kinds"
  shows "publish_all wire evs s
           = (map (\<lambda>ev. Inr ()) evs,
              s\<lparr>sent := sent s @
                   concat (map (\<lambda>(nm, d). map (\<lambda>p. (p, nm, Payload d)) (protos s)) evs)\<rparr>)
         \<and> protos (addProto s q) = protos s @ [q]"
  using assms by (simp add: publish_all_sent addProto_def)

theorem dispatch_fan_out_witness:
  "publish_all wire_ok [(''join'', Join ''a'' ''r1''), (''leave'', Leave ''a'' ''r1'')]
       (addProto (roster [1]) 2)
     = ([Inr (), Inr ()],
        (addProto (roster [1]) 2)\<lparr>sent :=
           [(1, ''join'', Payload (Join ''a'' ''r1'')), (2, ''join'', Payload (Join ''a'' ''r1'')),
            (1, ''leave'', Payload (Leave ''a'' ''r1'')), (2, ''leave'', Payload (Leave ''a'' ''r1''))]\<rparr>)
   \<and> protos (addProto (roster [1]) 2) = [1, 2]"
proof -
  have ok: "\<forall>p\<in>set (protos (addProto (roster [1]) 2)). \<forall>nm d.
              (wire_ok :: event wire) p nm (Payload d) = None"
    by (simp add: wire_ok_def)
  have canonical: "\<forall>(nm, d)\<in>set [(''join'', Join ''a'' ''r1''), (''leave'', Leave ''a'' ''r1'')].
              nm \<in> set kinds"
    by (simp add: kinds_def)
  from dispatch_fan_out [OF ok canonical, of 2]
  show ?thesis by (simp add: addProto_def roster_def)
qed

text \<open>
  C6 as stated fails: with sessions 1 and 2 admitted and the send of session 1 throwing,
  a published \<open>join\<close> is sent to nobody, session 2 included.
\<close>

theorem dispatch_fan_out_counterexample:
  "protos (roster [1, 2] :: event server) = [1, 2]
   \<and> sent (snd (emitter_emit (wire_broken 1) ''join'' (Join ''a'' ''r1'') (roster [1, 2]))) = []"
  by (simp add: emitter_emit_def kinds_def dispatch_def roster_def wire_broken_def)

text \<open>
  C7, as amended. A send that throws ends the fan-out of that event: the sessions
  admitted before the failing one have been sent the event, the failing one and those
  admitted after it have not, and the error is the outcome of \<open>emit\<close> on the event hub,
  hence (by C1) of the hub operation whose capture function published the event.
\<close>

theorem dispatch_send_throws:
  assumes "protos s = before @ q # after"
    and "\<forall>p\<in>set before. wire p nm (Payload d) = None"
    and "wire q nm (Payload d) = Some e"
    and "nm \<in> set kinds"
  shows "emitter_emit wire nm d s
           = (Inl e, s\<lparr>sent := sent s @ map (\<lambda>p. (p, nm, Payload d)) before\<rparr>)"
  using assms by (simp add: emitter_emit_def dispatch_def forEach_emit_stops)

theorem dispatch_send_throws_witness:
  "emitter_emit (wire_broken 2) ''leave'' (Leave ''a'' ''r1'') (roster [1, 2, 3])
     = (Inl (Error ''write failed''),
        (roster [1, 2, 3])\<lparr>sent := [(1, ''leave'', Payload (Leave ''a'' ''r1''))]\<rparr>)"
proof -
  have roster: "protos (roster [1, 2, 3] :: event server) = [1] @ 2 # [3]"
    by (simp add: roster_def)
  have before: "\<forall>p\<in>set [1]. wire_broken 2 p ''leave'' (Payload (Leave ''a'' ''r1'')) = None"
    by (simp add: wire_broken_def)
  have throws: "wire_broken 2 2 ''leave'' (Payload (Leave ''a'' ''r1''))
                  = Some (Error ''write failed'')"
    by (simp add: wire_broken_def)
  have kind: "''leave'' \<in> set kinds" by (simp add: kinds_def)
  from dispatch_send_throws
         [where wire = "wire_broken 2" and s = "roster [1, 2, 3]" and before = "[1]"
            and q = 2 and after = "[3]" and e = "Error ''write failed''",
          OF roster before throws kind]
  show ?thesis by (simp add: roster_def)
qed

text \<open>
  C7 as stated fails: with sessions 1, 2 and 3 admitted and the send of session 2
  throwing, session 3 is not sent a published \<open>leave\<close>, and the wrapped \<open>del\<close> of
  the hub that published it throws instead of removing the membership.
\<close>

theorem dispatch_send_throws_counterexample:
  "sent (snd (emitter_emit (wire_broken 2) ''leave'' (Leave ''a'' ''r1'') (roster [1, 2, 3])))
     = [(1, ''leave'', Payload (Leave ''a'' ''r1''))]
   \<and> call (monkeyPatch (hub_object example_hub) ''del'' (on_monitor (capture_del (wire_broken 2))))
        ''del'' (''a'', ''r1'') ([(''a'', ''r1'')], roster [1, 2, 3])
     = (Inl (Error ''write failed''),
        ([(''a'', ''r1'')],
         (roster [1, 2, 3])\<lparr>sent := [(1, ''leave'', Payload (Leave ''a'' ''r1''))]\<rparr>))"
  by (simp add: call_def monkeyPatch_def wrapper_def hub_object_def on_hub_def on_monitor_def
        capture_del_def emitter_emit_def kinds_def dispatch_def roster_def wire_broken_def
        example_hub_def example_del_def proto_emit_def)

lemma object_keys_example:
  "object_keys [''b'', ''10'', ''a'', ''2'', ''007''] = [''2'', ''10'', ''b'', ''a'', ''007'']"
  by (simp add: object_keys_def array_index_def decimal_def)

section \<open>Properties of the handshake\<close>

lemma configured_Some: "password opts = Some pw \<Longrightarrow> configured opts \<longleftrightarrow> pw \<noteq> []"
  by (simp add: configured_def)

lemma connection_configured:
  assumes "configured opts" and "wire p ''reqAuth'' (Flag True) = None"
  shows "connection opts wire s p =
     (Inr (), s\<lparr>sent := sent s @ [(p, ''reqAuth'', Flag True)],
       conns := (conns s)(p \<mapsto> \<lparr>authorized = False, timeout = Pending,
                                  password_listener = True, ended = False\<rparr>)\<rparr>)"
  using assms by (simp add: connection_def try_emit_def proto_emit_def update_conn_def)

lemma connection_open:
  assumes "\<not> configured opts" and "wire p ''reqAuth'' (Flag False) = None"
  shows "connection opts wire s p =
     (Inr (), s\<lparr>sent := sent s @ [(p, ''reqAuth'', Flag False)],
       conns := (conns s)(p \<mapsto> \<lparr>authorized = False, timeout = NoTimer,
                                  password_listener = True, ended = False\<rparr>)\<rparr>)"
  using assms by (simp add: connection_def try_emit_def proto_emit_def update_conn_def)

lemma password_matches:
  assumes "configured opts" and "password opts = Some pw"
    and "wire p ''reqAuth'' (Flag True) = None"
    and "wire p ''auth'' (AuthResult True None) = None"
  shows "run opts wire s [Connection p, Password p pw] =
     s\<lparr>protos := protos s @ [p],
       conns := (conns s)(p \<mapsto> \<lparr>authorized = True, timeout = Cleared,
                                  password_listener = False, ended = False\<rparr>),
       sent := sent s @ [(p, ''reqAuth'', Flag True), (p, ''auth'', AuthResult True None)],
       immediates := immediates s @ [p]\<rparr>"
  by (simp add: run_def connection_configured [where wire = wire and p = p, OF assms(1,3)])
     (simp add: on_password_def assms(1,2,4) try_emit_def update_conn_def proto_emit_def
        init_def addProto_def clearTimeout_def)

lemma password_differs:
  assumes "configured opts" and "password opts = Some pw" and "pwd \<noteq> pw"
    and "wire p ''reqAuth'' (Flag True) = None"
    and "wire p ''auth'' (AuthResult False (Some ''INVALID_PASSWORD'')) = None"
  shows "run opts wire s [Connection p, Password p pwd] =
     s\<lparr>conns := (conns s)(p \<mapsto> \<lparr>authorized = False, timeout = Cleared,
                                  password_listener = False, ended = True\<rparr>),
       sent := sent s @ [(p, ''reqAuth'', Flag True),
                         (p, ''auth'', AuthResult False (Some ''INVALID_PASSWORD''))]\<rparr>"
  by (simp add: run_def connection_configured [where wire = wire and p = p, OF assms(1,4)])
     (simp add: on_password_def assms(1,2,3,5) try_emit_def update_conn_def proto_emit_def
        socket_end_def clearTimeout_def)

lemma timer_fires_first:
  assumes "configured opts" and "authTimeout opts \<le> elapsed"
    and "wire p ''reqAuth'' (Flag True) = None"
    and "wire p ''auth'' (AuthResult False (Some ''TIMEOUT'')) = None"
  shows "run opts wire s [Connection p, TimerFired p elapsed] =
     s\<lparr>conns := (conns s)(p \<mapsto> \<lparr>authorized = False, timeout = Fired,
                                  password_listener = True, ended = True\<rparr>),
       sent := sent s @ [(p, ''reqAuth'', Flag True),
                         (p, ''auth'', AuthResult False (Some ''TIMEOUT''))]\<rparr>"
proof -
  from assms(2) have due: "\<not> elapsed < authTimeout opts" by simp
  show ?thesis
    by (simp add: run_def connection_configured [where wire = wire and p = p, OF assms(1,3)])
       (simp add: on_timeout_def due assms(4) try_emit_def update_conn_def proto_emit_def
          socket_end_def)
qed

lemma password_open:
  assumes "\<not> configured opts" and "wire p ''reqAuth'' (Flag False) = None"
  shows "run opts wire s [Connection p, Password p pwd] =
     s\<lparr>protos := protos s @ [p],
       conns := (conns s)(p \<mapsto> \<lparr>authorized = True, timeout = NoTimer,
                                  password_listener = False, ended = False\<rparr>),
       sent := sent s @ [(p, ''reqAuth'', Flag False)],
       immediates := immediates s @ [p]\<rparr>"
  by (simp add: run_def connection_open [where wire = wire and p = p, OF assms])
     (simp add: on_password_def assms(1) update_conn_def init_def addProto_def)

lemma timer_open:
  assumes "\<not> configured opts" and "wire p ''reqAuth'' (Flag False) = None"
  shows "run opts wire s [Connection p, TimerFired p elapsed] = run opts wire s [Connection p]"
  by (simp add: run_def connection_open [where wire = wire and p = p, OF assms]) (simp add: on_timeout_def)

text \<open>
  C3, as amended. With a non-empty password configured (the source's test is
  \<open>!password\<close>, under which the empty string counts as none, as \<open>null\<close> does) and a
  session whose sends return, a new connection is asked for the password; if its first
  \<open>password\<close> message, handled before the timer's callback, carries exactly the
  password, the session is sent \<open>auth {authorized: true}\<close> and appended to the roster,
  and the timer is cancelled (its callback changes nothing any more);
  if it carries anything else, the session is sent
  \<open>auth {authorized: false, error: INVALID_PASSWORD}\<close>, the socket is ended and the
  roster is unchanged; if the timer's callback runs first, which it does no earlier than
  \<open>authTimeout\<close> milliseconds after the connection, the session is sent
  \<open>auth {authorized: false, error: TIMEOUT}\<close>, the socket is ended and the roster is
  unchanged.
\<close>

theorem handshake_with_password:
  assumes "configured opts" and "password opts = Some pw" and "\<forall>nm b. wire p nm b = None"
  shows "(let s1 = run opts wire s [Connection p, Password p pw] in
            sent s1 = sent s @ [(p, ''reqAuth'', Flag True), (p, ''auth'', AuthResult True None)]
            \<and> protos s1 = protos s @ [p]
            \<and> map_option ended (conns s1 p) = Some False
            \<and> run opts wire s [Connection p, Password p pw, TimerFired p elapsed] = s1)
       \<and> (pwd \<noteq> pw \<longrightarrow>
           (let s2 = run opts wire s [Connection p, Password p pwd] in
              sent s2 = sent s @ [(p, ''reqAuth'', Flag True),
                                  (p, ''auth'', AuthResult False (Some ''INVALID_PASSWORD''))]
              \<and> protos s2 = protos s
              \<and> map_option ended (conns s2 p) = Some True))
       \<and> (authTimeout opts \<le> elapsed \<longrightarrow>
           (let s3 = run opts wire s [Connection p, TimerFired p elapsed] in
              sent s3 = sent s @ [(p, ''reqAuth'', Flag True),
                                  (p, ''auth'', AuthResult False (Some ''TIMEOUT''))]
              \<and> protos s3 = protos s
              \<and> map_option ended (conns s3 p) = Some True))"
proof -
  from assms(3) have ok: "wire p ''reqAuth'' (Flag True) = None"
    "wire p ''auth'' (AuthResult True None) = None"
    "wire p ''auth'' (AuthResult False (Some ''INVALID_PASSWORD'')) = None"
    "wire p ''auth'' (AuthResult False (Some ''TIMEOUT'')) = None"
    by simp_all
  have admitted: "run opts wire s [Connection p, Password p pw] =
     s\<lparr>protos := protos s @ [p],
       conns := (conns s)(p \<mapsto> \<lparr>authorized = True, timeout = Cleared,
                                  password_listener = False, ended = False\<rparr>),
       sent := sent s @ [(p, ''reqAuth'', Flag True), (p, ''auth'', AuthResult True None)],
       immediates := immediates s @ [p]\<rparr>"
    using assms(1,2) ok(1,2) by (rule password_matches)
  have "run opts wire s [Connection p, Password p pw, TimerFired p elapsed]
        = step opts wire (run opts wire s [Connection p, Password p pw]) (TimerFired p elapsed)"
    by (simp add: run_def)
  also have "\<dots> = run opts wire s [Connection p, Password p pw]"
    unfolding admitted by (simp add: on_timeout_def)
  finally have cancelled:
    "run opts wire s [Connection p, Password p pw, TimerFired p elapsed]
       = run opts wire s [Connection p, Password p pw]" .
  have refused: "run opts wire s [Connection p, Password p pwd] =
     s\<lparr>conns := (conns s)(p \<mapsto> \<lparr>authorized = False, timeout = Cleared,
                                  password_listener = False, ended = True\<rparr>),
       sent := sent s @ [(p, ''reqAuth'', Flag True),
                         (p, ''auth'', AuthResult False (Some ''INVALID_PASSWORD''))]\<rparr>"
    if "pwd \<noteq> pw"
    using assms(1,2) that ok(1,3) by (rule password_differs)
  have timed_out: "run opts wire s [Connection p, TimerFired p elapsed] =
     s\<lparr>conns := (conns s)(p \<mapsto> \<lparr>authorized = False, timeout = Fired,
                                  password_listener = True, ended = True\<rparr>),
       sent := sent s @ [(p, ''reqAuth'', Flag True),
                         (p, ''auth'', AuthResult False (Some ''TIMEOUT''))]\<rparr>"
    if "authTimeout opts \<le> elapsed"
    using assms(1) that ok(1,4) by (rule timer_fires_first)
  show ?thesis by (simp add: cancelled) (simp add: admitted refused timed_out)
qed

theorem handshake_with_password_witness:
  "sent (run with_password wire_ok (start :: event server) [Connection 1, Password 1 ''secret''])
     = [(1, ''reqAuth'', Flag True), (1, ''auth'', AuthResult True None)]
   \<and> protos (run with_password wire_ok (start :: event server)
               [Connection 1, Password 1 ''secret'']) = [1]
   \<and> sent (run with_password wire_ok (start :: event server) [Connection 1, Password 1 ''wrong''])
     = [(1, ''reqAuth'', Flag True), (1, ''auth'', AuthResult False (Some ''INVALID_PASSWORD''))]
   \<and> protos (run with_password wire_ok (start :: event server)
               [Connection 1, Password 1 ''wrong'']) = []
   \<and> sent (run with_password wire_ok (start :: event server) [Connection 1, TimerFired 1 1500])
     = [(1, ''reqAuth'', Flag True), (1, ''auth'', AuthResult False (Some ''TIMEOUT''))]
   \<and> protos (run with_password wire_ok (start :: event server)
               [Connection 1, TimerFired 1 1500]) = []"
proof -
  have c: "configured with_password" and pw: "password with_password = Some ''secret''"
    by (simp_all add: configured_def with_password_def)
  have ok: "\<forall>nm b. (wire_ok :: event wire) 1 nm b = None" by (simp add: wire_ok_def)
  have neq: "''wrong'' \<noteq> ''secret''" and due: "authTimeout with_password \<le> 1500"
    by (simp_all add: with_password_def)
  from handshake_with_password
         [where wire = "wire_ok :: event wire" and p = 1 and s = "start :: event server"
            and pwd = "''wrong''" and elapsed = 1500, OF c pw ok] neq due
  show ?thesis by (simp add: start_def Let_def)
qed

text \<open>
  C3 as stated fails twice. A session whose send throws is never asked for the password
  (the listener is registered after the send), so its matching password admits nobody.
  And with the empty string configured as password the program asks for none: a wrong
  password is admitted, and no \<open>auth\<close> message is sent.
\<close>

theorem handshake_with_password_counterexample:
  "protos (run with_password (wire_broken 1) (start :: event server)
             [Connection 1, Password 1 ''secret'']) = []
   \<and> sent (run with_password (wire_broken 1) (start :: event server)
             [Connection 1, Password 1 ''secret'']) = []
   \<and> protos (run empty_password wire_ok (start :: event server)
             [Connection 1, Password 1 ''wrong'']) = [1]
   \<and> sent (run empty_password wire_ok (start :: event server)
             [Connection 1, Password 1 ''wrong'']) = [(1, ''reqAuth'', Flag False)]"
  by (simp add: run_def start_def with_password_def empty_password_def connection_def
        configured_def on_password_def update_conn_def try_emit_def proto_emit_def
        wire_broken_def wire_ok_def init_def addProto_def)

text \<open>
  C10, as amended. Without a configured password, and if the \<open>reqAuth\<close> send returns,
  a new connection is sent \<open>reqAuth false\<close> and no timer is set (a timer callback would
  find nothing to do); its first \<open>password\<close> message, whatever it carries, appends the
  session to the roster, and no \<open>auth\<close> message is sent.
\<close>

theorem handshake_without_password:
  assumes "\<not> configured opts" and "wire p ''reqAuth'' (Flag False) = None"
  shows "(let s0 = run opts wire s [Connection p];
              s1 = run opts wire s [Connection p, Password p pwd] in
            sent s0 = sent s @ [(p, ''reqAuth'', Flag False)]
            \<and> map_option timeout (conns s0 p) = Some NoTimer
            \<and> run opts wire s [Connection p, TimerFired p elapsed] = s0
            \<and> sent s1 = sent s0
            \<and> protos s1 = protos s @ [p]
            \<and> map_option timeout (conns s1 p) = Some NoTimer)"
  by (simp add: Let_def password_open [where wire = wire and p = p, OF assms]
        timer_open [where wire = wire and p = p, OF assms])
     (simp add: run_def connection_open [where wire = wire and p = p, OF assms])

theorem handshake_without_password_witness:
  "sent (run without_password wire_ok (start :: event server)
           [Connection 1, Password 1 ''anything'']) = [(1, ''reqAuth'', Flag False)]
   \<and> protos (run without_password wire_ok (start :: event server)
           [Connection 1, Password 1 ''anything'']) = [1]
   \<and> run without_password wire_ok (start :: event server) [Connection 1, TimerFired 1 1500]
     = run without_password wire_ok (start :: event server) [Connection 1]"
proof -
  have c: "\<not> configured without_password"
    by (simp add: configured_def without_password_def)
  have ok: "(wire_ok :: event wire) 1 ''reqAuth'' (Flag False) = None"
    by (simp add: wire_ok_def)
  from handshake_without_password
         [where wire = "wire_ok :: event wire" and p = 1 and s = "start :: event server"
            and pwd = "''anything''" and elapsed = 1500, OF c ok]
  show ?thesis by (simp add: start_def Let_def)
qed

text \<open>
  C10 as stated fails: if the \<open>reqAuth\<close> send throws, the \<open>password\<close> listener is
  never registered, and the first password message admits nobody.
\<close>

theorem handshake_without_password_counterexample:
  "protos (run without_password (wire_broken 1) (start :: event server)
             [Connection 1, Password 1 ''anything'']) = []
   \<and> listeners (run without_password (wire_broken 1) (start :: event server)
             [Connection 1]) 1 = []"
  by (simp add: run_def start_def without_password_def connection_def configured_def
        on_password_def update_conn_def try_emit_def wire_broken_def listeners_def)

text \<open>
  C4 fails on the code. The timer's callback leaves the \<open>once('password')\<close> listener
  attached: a matching password handled after the timer has fired is answered with
  \<open>auth {authorized: true}\<close> and the session is appended to the roster, although the
  connection was already told \<open>TIMEOUT\<close> and its socket ended.
\<close>

theorem password_after_timeout_admits:
  "protos (run with_password wire_ok (start :: event server)
             [Connection 1, TimerFired 1 1500, Password 1 ''secret'']) = [1]
   \<and> sent (run with_password wire_ok (start :: event server)
             [Connection 1, TimerFired 1 1500, Password 1 ''secret''])
       = [(1, ''reqAuth'', Flag True),
          (1, ''auth'', AuthResult False (Some ''TIMEOUT'')),
          (1, ''auth'', AuthResult True None)]"
  by (simp add: run_def start_def with_password_def connection_def configured_def
        on_timeout_def on_password_def update_conn_def try_emit_def proto_emit_def
        wire_ok_def socket_end_def init_def addProto_def clearTimeout_def)

section \<open>Properties of retirement\<close>

lemma delivered_append: "delivered (xs @ ys) p = delivered xs p @ delivered ys p"
  by (induction xs p rule: delivered.induct) simp_all

lemma delivered_payloads:
  "delivered (map (\<lambda>r. (r, nm, Payload d)) qs) q = map (\<lambda>r. (nm, d)) (filter (\<lambda>r. r = q) qs)"
  by (induction qs) simp_all

lemma forEach_emit_snd:
  "snd (forEach_emit wire nm d ps s)
     = s\<lparr>sent := sent s @ map (\<lambda>p. (p, nm, Payload d))
                             (takeWhile (\<lambda>p. wire p nm (Payload d) = None) ps)\<rparr>"
  by (induction ps arbitrary: s) (simp_all add: proto_emit_def split: option.splits)

lemma emitter_emit_snd:
  "snd (emitter_emit wire nm d s)
     = s\<lparr>sent := sent s @ map (\<lambda>p. (p, nm, Payload d))
             (if nm \<in> set kinds then takeWhile (\<lambda>p. wire p nm (Payload d) = None) (protos s)
              else [])\<rparr>"
  by (simp add: emitter_emit_def dispatch_def forEach_emit_snd)

lemma not_reached: "p \<notin> set ps \<Longrightarrow> filter (\<lambda>r. r = p) (takeWhile ok ps) = []"
  by (auto simp: filter_empty_conv dest: set_takeWhileD)

lemma emitter_emit_frame:
  "protos (snd (emitter_emit wire nm d s)) = protos s"
  "conns (snd (emitter_emit wire nm d s)) = conns s"
  "immediates (snd (emitter_emit wire nm d s)) = immediates s"
  by (simp_all add: emitter_emit_snd)

lemma emitter_emit_not_admitted:
  "p \<notin> set (protos s) \<Longrightarrow>
   delivered (sent (snd (emitter_emit wire nm d s))) p = delivered (sent s) p"
  by (simp add: emitter_emit_snd delivered_append delivered_payloads not_reached)

lemma delivered_proto_emit:
  "\<forall>d. b \<noteq> Payload d \<Longrightarrow> delivered (sent (proto_emit s q nm b)) p = delivered (sent s) p"
  by (cases b) (simp_all add: proto_emit_def delivered_append)

lemma try_emit_frame:
  "protos (snd (try_emit wire s q nm b)) = protos s"
  "conns (snd (try_emit wire s q nm b)) = conns s"
  by (simp_all add: try_emit_def proto_emit_def split: option.splits)

lemma delivered_try_emit:
  "\<forall>d. b \<noteq> Payload d \<Longrightarrow>
   delivered (sent (snd (try_emit wire s q nm b))) p = delivered (sent s) p"
  by (cases "wire q nm b") (simp_all add: try_emit_def delivered_proto_emit)

lemma step_retired:
  assumes "p \<notin> set (protos s)" and "listeners s p = []" and "i \<noteq> Connection p"
  shows "p \<notin> set (protos (step opts wire s i))
         \<and> listeners (step opts wire s i) p = []
         \<and> delivered (sent (step opts wire s i)) p = delivered (sent s) p"
proof (cases i)
  case (Connection q)
  with assms show ?thesis
    by (auto simp: connection_def try_emit_def update_conn_def proto_emit_def listeners_def
          delivered_append Let_def split: option.splits)
next
  case (Password q pwd)
  with assms show ?thesis
    by (auto simp: on_password_def try_emit_def update_conn_def proto_emit_def listeners_def
          delivered_append init_def addProto_def socket_end_def Let_def
          split: option.splits if_splits)
next
  case (TimerFired q elapsed)
  with assms show ?thesis
    by (auto simp: on_timeout_def try_emit_def update_conn_def proto_emit_def listeners_def
          delivered_append socket_end_def split: option.splits if_splits)
next
  case (Close q)
  with assms show ?thesis
    by (auto simp: removeProto_def removeAllListeners_def listeners_def
          split: option.splits if_splits)
next
  case (Immediate io_rooms)
  with assms show ?thesis
    by (auto simp: run_immediate_def try_emit_def proto_emit_def listeners_def
          delivered_append split: list.splits option.splits sum.splits prod.splits)
next
  case (Publish nm d)
  with assms show ?thesis
    by (simp add: emitter_emit_frame emitter_emit_not_admitted listeners_def)
qed

lemma run_retired:
  assumes "p \<notin> set (protos s)" and "listeners s p = []" and "Connection p \<notin> set ins"
  shows "p \<notin> set (protos (run opts wire s ins))
         \<and> listeners (run opts wire s ins) p = []
         \<and> delivered (sent (run opts wire s ins)) p = delivered (sent s) p"
  using assms
proof (induction ins arbitrary: s)
  case Nil
  then show ?case by (simp add: run_def)
next
  case (Cons i ins)
  from Cons.prems have i: "i \<noteq> Connection p" and rest: "Connection p \<notin> set ins" by auto
  from step_retired [OF Cons.prems(1,2) i, of opts wire]
  have a: "p \<notin> set (protos (step opts wire s i))"
    and b: "listeners (step opts wire s i) p = []"
    and c: "delivered (sent (step opts wire s i)) p = delivered (sent s) p" by simp_all
  from Cons.IH [OF a b rest] c show ?case by (simp add: run_def)
qed

lemma removeProto_protos: "protos (removeProto s p) = filter (\<lambda>q. q \<noteq> p) (protos s)"
  by (simp add: removeProto_def removeAllListeners_def split: option.splits)

lemma removeProto_sent: "sent (removeProto s p) = sent s"
  by (simp add: removeProto_def removeAllListeners_def split: option.splits)

lemma removeProto_listeners: "listeners (removeProto s p) p = []"
  by (cases "conns s p") (simp_all add: removeProto_def removeAllListeners_def listeners_def)

lemma removeProto_nothing:
  assumes "p \<notin> set (protos s)" and "listeners s p = []"
  shows "removeProto s p = s"
proof -
  from assms(1) have f: "filter (\<lambda>q. q \<noteq> p) (protos s) = protos s"
    by (auto simp: filter_id_conv)
  show ?thesis
  proof (cases "conns s p")
    case None
    with f show ?thesis by (simp add: removeProto_def removeAllListeners_def)
  next
    case (Some c)
    with assms(2) have "c\<lparr>password_listener := False\<rparr> = c"
      by (simp add: listeners_def split: if_splits)
    with Some have "(conns s)(p \<mapsto> c\<lparr>password_listener := False\<rparr>) = conns s"
      by (simp add: fun_upd_idem)
    with Some f show ?thesis by (simp add: removeProto_def removeAllListeners_def)
  qed
qed

lemma reached_without:
  "q \<noteq> p \<Longrightarrow>
   \<exists>ys. filter (\<lambda>r. r = q) (takeWhile ok (filter (\<lambda>r. r \<noteq> p) ps))
        = filter (\<lambda>r. r = q) (takeWhile ok ps) @ ys"
  by (induction ps) auto

lemma reached_without_eq:
  "q \<noteq> p \<Longrightarrow> ok p \<Longrightarrow>
   filter (\<lambda>r. r = q) (takeWhile ok (filter (\<lambda>r. r \<noteq> p) ps))
     = filter (\<lambda>r. r = q) (takeWhile ok ps)"
  by (induction ps) auto


lemma emitter_emit_delivered:
  "delivered (sent (snd (emitter_emit wire nm d s))) q
     = delivered (sent s) q @
       map (\<lambda>r. (nm, d))
         (filter (\<lambda>r. r = q)
            (if nm \<in> set kinds then takeWhile (\<lambda>p. wire p nm (Payload d) = None) (protos s)
             else []))"
  by (simp add: emitter_emit_snd delivered_append delivered_payloads)

text \<open>
  C9. Retiring a session removes it from the roster and keeps the other sessions in
  their order; the session object has no listener left; retiring again changes nothing,
  nor does retiring a session that is not in the roster and has no listener. Whatever the
  program handles afterwards (short of a new connection reusing the session object), the
  retired session is never in the roster again and is sent no dispatched event. For any
  other session, what a dispatch sends it with the session retired extends what it would
  have been sent otherwise, and is the same when the retired session's send would have
  returned.
\<close>

theorem retire_session:
  "protos (removeProto s p) = filter (\<lambda>q. q \<noteq> p) (protos s)
   \<and> listeners (removeProto s p) p = []
   \<and> removeProto (removeProto s p) p = removeProto s p
   \<and> (p \<notin> set (protos s) \<and> listeners s p = [] \<longrightarrow> removeProto s p = s)
   \<and> (Connection p \<notin> set ins \<longrightarrow>
        p \<notin> set (protos (run opts wire (removeProto s p) ins))
        \<and> delivered (sent (run opts wire (removeProto s p) ins)) p = delivered (sent s) p)
   \<and> (q \<noteq> p \<longrightarrow>
        (\<exists>more. delivered (sent (snd (emitter_emit wire nm d (removeProto s p)))) q
                 = delivered (sent (snd (emitter_emit wire nm d s))) q @ more))
   \<and> (q \<noteq> p \<and> wire p nm (Payload d) = None \<longrightarrow>
        delivered (sent (snd (emitter_emit wire nm d (removeProto s p)))) q
          = delivered (sent (snd (emitter_emit wire nm d s))) q)"
proof -
  have gone: "p \<notin> set (protos (removeProto s p))"
    by (simp add: removeProto_protos)
  have idem: "removeProto (removeProto s p) p = removeProto s p"
    using gone removeProto_listeners by (rule removeProto_nothing)
  have later: "p \<notin> set (protos (run opts wire (removeProto s p) ins))
        \<and> delivered (sent (run opts wire (removeProto s p) ins)) p = delivered (sent s) p"
    if "Connection p \<notin> set ins"
    using run_retired [OF gone removeProto_listeners that, of opts wire]
    by (simp add: removeProto_sent)
  have others: "\<exists>more. delivered (sent (snd (emitter_emit wire nm d (removeProto s p)))) q
                 = delivered (sent (snd (emitter_emit wire nm d s))) q @ more"
    if "q \<noteq> p"
  proof -
    from reached_without [OF that, of "\<lambda>p. wire p nm (Payload d) = None" "protos s"]
    obtain ys where "filter (\<lambda>r. r = q)
          (takeWhile (\<lambda>p. wire p nm (Payload d) = None) (filter (\<lambda>r. r \<noteq> p) (protos s)))
        = filter (\<lambda>r. r = q) (takeWhile (\<lambda>p. wire p nm (Payload d) = None) (protos s)) @ ys" ..
    then show ?thesis
      by (simp add: emitter_emit_delivered removeProto_sent removeProto_protos)
  qed
  have same: "delivered (sent (snd (emitter_emit wire nm d (removeProto s p)))) q
          = delivered (sent (snd (emitter_emit wire nm d s))) q"
    if "q \<noteq> p" and "wire p nm (Payload d) = None"
    using reached_without_eq [of q p "\<lambda>p. wire p nm (Payload d) = None" "protos s"] that
    by (simp add: emitter_emit_delivered removeProto_sent removeProto_protos)
  show ?thesis
    using idem later others same
    by (simp add: removeProto_protos removeProto_listeners removeProto_nothing)
qed

theorem retire_session_witness:
  "protos (removeProto two_admitted 1) = [2]
   \<and> listeners (removeProto two_admitted 1) 1 = []
   \<and> protos (run with_password wire_ok (removeProto two_admitted 1)
               [Publish ''join'' (Join ''a'' ''r1''), Password 1 ''secret'', TimerFired 1 1500,
                Publish ''leave'' (Leave ''a'' ''r1'')]) = [2]
   \<and> delivered (sent (run with_password wire_ok (removeProto two_admitted 1)
               [Publish ''join'' (Join ''a'' ''r1''), Password 1 ''secret'', TimerFired 1 1500,
                Publish ''leave'' (Leave ''a'' ''r1'')])) 1 = []
   \<and> delivered (sent (snd (emitter_emit wire_ok ''join'' (Join ''a'' ''r1'')
                              (removeProto two_admitted 1)))) 2
       = delivered (sent (snd (emitter_emit wire_ok ''join'' (Join ''a'' ''r1'') two_admitted))) 2"
proof -
  have state: "two_admitted =
      \<lparr>protos = [1, 2],
       conns = [1 \<mapsto> \<lparr>authorized = True, timeout = Cleared, password_listener = False, ended = False\<rparr>,
                2 \<mapsto> \<lparr>authorized = True, timeout = Cleared, password_listener = False, ended = False\<rparr>],
       sent = [(1, ''reqAuth'', Flag True), (1, ''auth'', AuthResult True None),
               (2, ''reqAuth'', Flag True), (2, ''auth'', AuthResult True None)],
       immediates = [1, 2]\<rparr>"
    by (simp add: two_admitted_def run_def start_def with_password_def connection_def
          configured_def on_password_def update_conn_def try_emit_def proto_emit_def
          wire_ok_def init_def addProto_def clearTimeout_def)
  have ins: "Connection 1 \<notin> set [Publish ''join'' (Join ''a'' ''r1''), Password 1 ''secret'',
                TimerFired 1 1500, Publish ''leave'' (Leave ''a'' ''r1'')]"
    by simp
  have ok: "(2::nat) \<noteq> 1 \<and>
      (wire_ok :: event wire) 1 ''join'' (Payload (Join ''a'' ''r1'')) = None"
    by (simp add: wire_ok_def)
  have roster: "protos (removeProto two_admitted 1) = [2]"
    by (simp add: state removeProto_protos)
  from retire_session [where s = two_admitted and p = 1 and q = 2 and opts = with_password
         and wire = wire_ok and nm = "''join''" and d = "Join ''a'' ''r1''"
         and ins = "[Publish ''join'' (Join ''a'' ''r1''), Password 1 ''secret'', TimerFired 1 1500,
                Publish ''leave'' (Leave ''a'' ''r1'')]"]
       ins ok
  have facts: "listeners (removeProto two_admitted 1) 1 = []"
    "1 \<notin> set (protos (run with_password wire_ok (removeProto two_admitted 1)
               [Publish ''join'' (Join ''a'' ''r1''), Password 1 ''secret'', TimerFired 1 1500,
                Publish ''leave'' (Leave ''a'' ''r1'')]))"
    "delivered (sent (run with_password wire_ok (removeProto two_admitted 1)
               [Publish ''join'' (Join ''a'' ''r1''), Password 1 ''secret'', TimerFired 1 1500,
                Publish ''leave'' (Leave ''a'' ''r1'')])) 1 = delivered (sent two_admitted) 1"
    "delivered (sent (snd (emitter_emit wire_ok ''join'' (Join ''a'' ''r1'')
                              (removeProto two_admitted 1)))) 2
       = delivered (sent (snd (emitter_emit wire_ok ''join'' (Join ''a'' ''r1'') two_admitted))) 2"
    by blast+
  have none: "delivered (sent two_admitted) 1 = []"
    by (simp add: state)
  have later: "protos (run with_password wire_ok (removeProto two_admitted 1)
               [Publish ''join'' (Join ''a'' ''r1''), Password 1 ''secret'', TimerFired 1 1500,
                Publish ''leave'' (Leave ''a'' ''r1'')]) = [2]"
    by (simp add: run_def emitter_emit_frame on_password_def on_timeout_def removeProto_def
          removeAllListeners_def state)
  from facts none roster later show ?thesis by simp
qed

text \<open>
  The part of C4 that holds: a wrong password uses up the \<open>once\<close> listener, whether
  or not the answer can be sent, so nothing the program handles later admits the session.
\<close>

lemma invalid_password_never_admitted:
  assumes "configured opts" and "password opts = Some pw" and "pwd \<noteq> pw"
    and "p \<notin> set (protos s)" and "Connection p \<notin> set ins"
  shows "p \<notin> set (protos (run opts wire s ([Connection p, Password p pwd] @ ins)))"
proof -
  let ?s = "run opts wire s [Connection p, Password p pwd]"
  have "p \<notin> set (protos ?s)" and "listeners ?s p = []"
    using assms(1-4)
    by (auto simp: run_def connection_def on_password_def try_emit_def update_conn_def
          proto_emit_def socket_end_def listeners_def clearTimeout_def Let_def
          split: option.splits)
  from run_retired [OF this assms(5), of opts wire] show ?thesis by (simp add: run_def)
qed

end
